theory Spec2Isabelle
  imports Main "HOL-Library.List_Lexorder"
begin

section \<open>Python strings and the built-ins the program calls\<close>

text \<open>
  A Python \<^verbatim>\<open>str\<close> is a sequence of Unicode code points; \<^verbatim>\<open>ord\<close> reads one as an
  unbounded integer.  A string is therefore a list of natural numbers here, and an ASCII
  literal of the source is written \<open>str ''abc''\<close>.
\<close>

type_synonym codepoint = nat
type_synonym pystr = "codepoint list"

definition str :: "string \<Rightarrow> pystr" where
  "str s = map of_char s"

text \<open>
  \<^verbatim>\<open>str.isalpha\<close>, \<^verbatim>\<open>str.lower\<close> and \<^verbatim>\<open>str.split\<close> read the Unicode character database
  of the interpreter.  The database is a parameter of the model: the properties of a code
  point that those three methods consult.
\<close>

record ucd =
  isalpha_cp :: "codepoint \<Rightarrow> bool"
  isspace_cp :: "codepoint \<Rightarrow> bool"
  tolower_full :: "codepoint \<Rightarrow> pystr"
  is_cased :: "codepoint \<Rightarrow> bool"
  is_case_ignorable :: "codepoint \<Rightarrow> bool"

definition is_ascii_upper :: "codepoint \<Rightarrow> bool" where
  "is_ascii_upper c = (65 \<le> c \<and> c \<le> 90)"

definition is_ascii_lower :: "codepoint \<Rightarrow> bool" where
  "is_ascii_lower c = (97 \<le> c \<and> c \<le> 122)"

definition is_ascii_letter :: "codepoint \<Rightarrow> bool" where
  "is_ascii_letter c = (is_ascii_upper c \<or> is_ascii_lower c)"

definition ascii_tolower :: "codepoint \<Rightarrow> codepoint" where
  "ascii_tolower c = (if is_ascii_upper c then c + 32 else c)"

definition is_ascii_space :: "codepoint \<Rightarrow> bool" where
  "is_ascii_space c = (c \<in> {9, 10, 11, 12, 13, 28, 29, 30, 31, 32})"

text \<open>
  What every Unicode database says about the 128 ASCII code points: the letters are
  \<open>A-Z\<close> and \<open>a-z\<close>, lowercasing adds 32 to \<open>A-Z\<close> and changes nothing else, and
  the whitespace characters are TAB, LF, VT, FF, CR, FS, GS, RS, US and SPACE.
\<close>

definition ascii_conformant :: "ucd \<Rightarrow> bool" where
  "ascii_conformant U =
     list_all (\<lambda>c. isalpha_cp U c = is_ascii_letter c
                 \<and> tolower_full U c = [ascii_tolower c]
                 \<and> isspace_cp U c = is_ascii_space c) [0..<128]"

text \<open>
  A concrete database, faithful to Unicode on \<open>U+0000..U+00FF\<close> (Basic Latin and Latin-1
  Supplement) and on the Greek letters \<open>U+0391..U+03CE\<close>.  Outside these two ranges
  it is a placeholder (no letters, no case mapping); it is evaluated only on strings of
  the two ranges.
\<close>

definition latin1_letter :: "codepoint \<Rightarrow> bool" where
  "latin1_letter c =
     (is_ascii_letter c \<or> c = 0xAA \<or> c = 0xB5 \<or> c = 0xBA
      \<or> (0xC0 \<le> c \<and> c \<le> 0xFF \<and> c \<noteq> 0xD7 \<and> c \<noteq> 0xF7))"

definition greek_letter :: "codepoint \<Rightarrow> bool" where
  "greek_letter c = (0x391 \<le> c \<and> c \<le> 0x3CE \<and> c \<noteq> 0x3A2)"

definition fragment_upper :: "codepoint \<Rightarrow> bool" where
  "fragment_upper c =
     (is_ascii_upper c \<or> (0xC0 \<le> c \<and> c \<le> 0xDE \<and> c \<noteq> 0xD7)
      \<or> (0x391 \<le> c \<and> c \<le> 0x3AB \<and> c \<noteq> 0x3A2))"

definition unicode_fragment :: ucd where
  "unicode_fragment =
     \<lparr> isalpha_cp = (\<lambda>c. latin1_letter c \<or> greek_letter c),
       isspace_cp = (\<lambda>c. is_ascii_space c \<or> c = 0x85 \<or> c = 0xA0),
       tolower_full = (\<lambda>c. if fragment_upper c then [c + 32] else [c]),
       is_cased = (\<lambda>c. latin1_letter c \<or> greek_letter c),
       is_case_ignorable =
         (\<lambda>c. c \<in> {0x27, 0x2E, 0x3A, 0x5E, 0x60, 0xA8, 0xAD, 0xAF, 0xB4, 0xB7, 0xB8}) \<rparr>"

subsection \<open>\<^verbatim>\<open>str.isalpha\<close>\<close>

text \<open>True when the string is not empty and every character is alphabetic.\<close>

definition str_isalpha :: "ucd \<Rightarrow> pystr \<Rightarrow> bool" where
  "str_isalpha U s = (s \<noteq> [] \<and> list_all (isalpha_cp U) s)"

subsection \<open>\<^verbatim>\<open>str.lower\<close>\<close>

text \<open>
  CPython lowercases each character by the full lower-case mapping of the database, except
  GREEK CAPITAL LETTER SIGMA (\<open>U+03A3\<close>): it becomes the final sigma \<open>U+03C2\<close> when it
  is preceded by a cased character and not followed by one (case-ignorable characters
  skipped on both sides), and \<open>U+03C3\<close> otherwise.  \<open>prev\<close> holds the characters to the
  left of the current one, nearest first.
\<close>

definition handle_capital_sigma :: "ucd \<Rightarrow> pystr \<Rightarrow> pystr \<Rightarrow> codepoint" where
  "handle_capital_sigma U prev rest =
     (let final_sigma =
            (case dropWhile (is_case_ignorable U) prev of
               [] \<Rightarrow> False
             | c # _ \<Rightarrow> is_cased U c)
            \<and> (case dropWhile (is_case_ignorable U) rest of
                 [] \<Rightarrow> True
               | c # _ \<Rightarrow> \<not> is_cased U c)
      in if final_sigma then 0x3C2 else 0x3C3)"

definition lower_ucs4 :: "ucd \<Rightarrow> pystr \<Rightarrow> codepoint \<Rightarrow> pystr \<Rightarrow> pystr" where
  "lower_ucs4 U prev c rest =
     (if c = 0x3A3 then [handle_capital_sigma U prev rest] else tolower_full U c)"

fun do_lower :: "ucd \<Rightarrow> pystr \<Rightarrow> pystr \<Rightarrow> pystr" where
  "do_lower U prev [] = []"
| "do_lower U prev (c # rest) = lower_ucs4 U prev c rest @ do_lower U (c # prev) rest"

definition str_lower :: "ucd \<Rightarrow> pystr \<Rightarrow> pystr" where
  "str_lower U s = do_lower U [] s"

subsection \<open>\<^verbatim>\<open>str.split\<close> without arguments\<close>

text \<open>
  The maximal runs of non-whitespace characters, in order; leading, trailing and repeated
  whitespace yields no empty token.  \<open>cur\<close> is the token being read.
\<close>

fun split_from :: "ucd \<Rightarrow> pystr \<Rightarrow> pystr \<Rightarrow> pystr list" where
  "split_from U cur [] = (if cur = [] then [] else [cur])"
| "split_from U cur (c # cs) =
     (if isspace_cp U c
      then (if cur = [] then split_from U [] cs else cur # split_from U [] cs)
      else split_from U (cur @ [c]) cs)"

definition str_split :: "ucd \<Rightarrow> pystr \<Rightarrow> pystr list" where
  "str_split U s = split_from U [] s"

section \<open>The three scorers\<close>

text \<open>
  \<^verbatim>\<open>sum(ord(char) - 96 for char in word.lower() if char.isalpha())\<close>
\<close>

definition calculate_gematria :: "ucd \<Rightarrow> pystr \<Rightarrow> int" where
  "calculate_gematria U word =
     sum_list (map (\<lambda>char. int char - 96) (filter (isalpha_cp U) (str_lower U word)))"

definition hebrew_values :: "codepoint \<rightharpoonup> int" where
  "hebrew_values = map_of (map (\<lambda>(k, v). (of_char k, v))
     [(CHR ''a'', 1), (CHR ''b'', 2), (CHR ''c'', 3), (CHR ''d'', 4), (CHR ''e'', 5),
      (CHR ''f'', 6), (CHR ''g'', 7), (CHR ''h'', 8), (CHR ''i'', 9),
      (CHR ''k'', 10), (CHR ''l'', 20), (CHR ''m'', 30), (CHR ''n'', 40), (CHR ''o'', 50),
      (CHR ''p'', 60), (CHR ''q'', 70), (CHR ''r'', 80),
      (CHR ''s'', 90), (CHR ''t'', 100), (CHR ''u'', 200), (CHR ''x'', 300),
      (CHR ''y'', 400), (CHR ''z'', 500), (CHR ''j'', 600),
      (CHR ''v'', 700), (CHR ''w'', 900)])"

text \<open>
  \<^verbatim>\<open>sum(hebrew_values[char] for char in word.lower() if char in hebrew_values)\<close>: the
  lookup is guarded by the membership test, so it never raises.
\<close>

definition calculate_hebrew_gematria :: "ucd \<Rightarrow> pystr \<Rightarrow> int" where
  "calculate_hebrew_gematria U word =
     sum_list (map (\<lambda>char. the (hebrew_values char))
                   (filter (\<lambda>char. hebrew_values char \<noteq> None) (str_lower U word)))"

definition english_values :: "codepoint \<rightharpoonup> int" where
  "english_values = map_of (map (\<lambda>(k, v). (of_char k, v))
     [(CHR ''a'', 6), (CHR ''b'', 12), (CHR ''c'', 18), (CHR ''d'', 24), (CHR ''e'', 30),
      (CHR ''f'', 36), (CHR ''g'', 42), (CHR ''h'', 48), (CHR ''i'', 54),
      (CHR ''j'', 60), (CHR ''k'', 66), (CHR ''l'', 72), (CHR ''m'', 78), (CHR ''n'', 84),
      (CHR ''o'', 90), (CHR ''p'', 96), (CHR ''q'', 102), (CHR ''r'', 108),
      (CHR ''s'', 114), (CHR ''t'', 120), (CHR ''u'', 126), (CHR ''v'', 132),
      (CHR ''w'', 138), (CHR ''x'', 144), (CHR ''y'', 150), (CHR ''z'', 156)])"

definition calculate_english_gematria :: "ucd \<Rightarrow> pystr \<Rightarrow> int" where
  "calculate_english_gematria U word =
     sum_list (map (\<lambda>char. the (english_values char))
                   (filter (\<lambda>char. english_values char \<noteq> None) (str_lower U word)))"

text \<open>
  The specification's formula for the simple score, written from its words: "for each
  character c where c is an ASCII letter, add (lowercase codepoint of c) - (codepoint of
  'a') + 1; all other characters contribute nothing".
\<close>

definition simple_score_spec :: "pystr \<Rightarrow> int" where
  "simple_score_spec word =
     sum_list (map (\<lambda>c. int (ascii_tolower c) - 97 + 1) (filter is_ascii_letter word))"

text \<open>A string all of whose code points are below 128, and the sum of a table over a string
  in which a character without an entry counts 0.\<close>

definition is_ascii :: "pystr \<Rightarrow> bool" where
  "is_ascii s = list_all (\<lambda>c. c < 128) s"

definition table_sum :: "(codepoint \<rightharpoonup> int) \<Rightarrow> pystr \<Rightarrow> int" where
  "table_sum t s = sum_list (map (\<lambda>c. case t c of Some v \<Rightarrow> v | None \<Rightarrow> 0) s)"

text \<open>The lower-case mapping of one character with the capital sigma left out.\<close>

definition lower_nosigma :: "ucd \<Rightarrow> codepoint \<Rightarrow> pystr" where
  "lower_nosigma U c = (if c = 0x3A3 then [] else tolower_full U c)"

section \<open>The store\<close>

text \<open>
  The file \<^verbatim>\<open>gematria.db\<close> either has no table \<^verbatim>\<open>words\<close> (\<open>None\<close>) or has one, a list
  of rows \<^verbatim>\<open>(word, simple_gematria, hebrew_gematria, english_gematria)\<close> in insertion
  order.  The world also holds what the logger has printed.
\<close>

type_synonym row = "pystr \<times> int \<times> int \<times> int"

datatype log_record =
    Warning_unsupported_format pystr
  | Error_processing_file pystr
  | Error_creating_database
  | Error_inserting
  | Info_processed pystr int int int

record world =
  words_table :: "row list option"
  log :: "log_record list"

definition add_log :: "log_record \<Rightarrow> world \<Rightarrow> world" where
  "add_log r w = w\<lparr>log := log w @ [r]\<rparr>"

text \<open>
  What the environment does to one use of the database: nothing, or it makes
  \<^verbatim>\<open>sqlite3.connect\<close>, \<^verbatim>\<open>conn.execute\<close> or \<^verbatim>\<open>conn.commit\<close> raise (file cannot be opened,
  disk full, ...).
\<close>

datatype fault = NoFault | ConnectFails | ExecuteFails | CommitFails

text \<open>The exceptions that can leave a function of the program, and how a call ends.\<close>

datatype exn = OperationalError | UnboundLocalError

datatype outcome = Returned world | Raised exn world

fun final_world :: "outcome \<Rightarrow> world" where
  "final_world (Returned w) = w"
| "final_world (Raised x w) = w"

text \<open>
  \<^verbatim>\<open>CREATE TABLE IF NOT EXISTS words (word TEXT PRIMARY KEY, ...)\<close>: a table that exists is
  left as it is.  The statement is not run in a transaction, so it takes effect when
  \<^verbatim>\<open>execute\<close> returns.
\<close>

definition execute_create :: "fault \<Rightarrow> row list option \<Rightarrow> row list option option" where
  "execute_create f t =
     (if f = ExecuteFails then None
      else Some (case t of None \<Rightarrow> Some [] | Some rows \<Rightarrow> Some rows))"

text \<open>
  \<^verbatim>\<open>create_database\<close>: \<^verbatim>\<open>sqlite3.connect\<close> is called before the \<^verbatim>\<open>try\<close>, so its exception
  leaves the function; an exception of \<^verbatim>\<open>execute\<close> or \<^verbatim>\<open>commit\<close> is logged.
\<close>

definition create_database :: "fault \<Rightarrow> world \<Rightarrow> outcome" where
  "create_database f w =
     (if f = ConnectFails then Raised OperationalError w
      else case execute_create f (words_table w) of
             None \<Rightarrow> Returned (add_log Error_creating_database w)
           | Some t' \<Rightarrow>
               if f = CommitFails
               then Returned (add_log Error_creating_database (w\<lparr>words_table := t'\<rparr>))
               else Returned (w\<lparr>words_table := t'\<rparr>))"

text \<open>
  \<^verbatim>\<open>INSERT OR IGNORE INTO words ... VALUES (?, ?, ?, ?)\<close>: raises when there is no table;
  a row whose key is already present is ignored.  Keys are compared as exact strings.
\<close>

definition insert_or_ignore :: "row list \<Rightarrow> row \<Rightarrow> row list" where
  "insert_or_ignore rows r = (if fst r \<in> fst ` set rows then rows else rows @ [r])"

text \<open>
  Binding the four parameters: \<^verbatim>\<open>execute\<close> raises \<^verbatim>\<open>OverflowError\<close> for an integer outside
  the signed 64-bit range of an SQLite \<^verbatim>\<open>INTEGER\<close>, and \<^verbatim>\<open>UnicodeEncodeError\<close> for a word
  that has no UTF-8 encoding (a surrogate code point; a Python string has no code point
  above \<open>U+10FFFF\<close>).
\<close>

definition fits_int64 :: "int \<Rightarrow> bool" where
  "fits_int64 n = (- 9223372036854775808 \<le> n \<and> n \<le> 9223372036854775807)"

definition utf8_encodable :: "pystr \<Rightarrow> bool" where
  "utf8_encodable s = list_all (\<lambda>c. c < 0xD800 \<or> (0xDFFF < c \<and> c < 0x110000)) s"

definition bindable :: "row \<Rightarrow> bool" where
  "bindable r =
     (case r of (word, simple_value, hebrew_value, english_value) \<Rightarrow>
        utf8_encodable word \<and> fits_int64 simple_value \<and> fits_int64 hebrew_value
        \<and> fits_int64 english_value)"

definition execute_insert :: "fault \<Rightarrow> row list option \<Rightarrow> row \<Rightarrow> row list option" where
  "execute_insert f t r =
     (if f = ExecuteFails then None
      else case t of
             None \<Rightarrow> None
           | Some rows \<Rightarrow> if bindable r then Some (insert_or_ignore rows r) else None)"

text \<open>
  \<^verbatim>\<open>insert_word\<close>: here \<^verbatim>\<open>sqlite3.connect\<close> is inside the \<^verbatim>\<open>try\<close>.  When it raises, the
  handler logs the error and the \<^verbatim>\<open>finally\<close> clause runs \<^verbatim>\<open>conn.close()\<close> with \<^verbatim>\<open>conn\<close>
  never assigned: an \<^verbatim>\<open>UnboundLocalError\<close> leaves the function.  When \<^verbatim>\<open>execute\<close> (no
  table, a parameter that cannot be bound, an injected fault) or \<^verbatim>\<open>commit\<close> raises, the error
  is logged and closing the connection drops the uncommitted row.
\<close>

definition insert_word :: "fault \<Rightarrow> pystr \<Rightarrow> int \<Rightarrow> int \<Rightarrow> int \<Rightarrow> world \<Rightarrow> outcome" where
  "insert_word f word simple_value hebrew_value english_value w =
     (if f = ConnectFails then Raised UnboundLocalError (add_log Error_inserting w)
      else case execute_insert f (words_table w)
                  (word, simple_value, hebrew_value, english_value) of
             None \<Rightarrow> Returned (add_log Error_inserting w)
           | Some rows' \<Rightarrow>
               if f = CommitFails then Returned (add_log Error_inserting w)
               else Returned (w\<lparr>words_table := Some rows'\<rparr>))"

section \<open>Extraction and the pipeline\<close>

text \<open>
  \<^verbatim>\<open>os.path.splitext(file_path)[1]\<close> on a POSIX system: the extension starts at the last
  dot of the last path component, leading dots of the component not counted; it is empty
  when there is no such dot.  47 is \<open>/\<close> and 46 is the dot.
\<close>

definition splitext_ext :: "pystr \<Rightarrow> pystr" where
  "splitext_ext p =
     (let base = rev (takeWhile (\<lambda>c. c \<noteq> 47) (rev p));
          name = dropWhile (\<lambda>c. c = 46) base
      in if 46 \<in> set name then 46 # rev (takeWhile (\<lambda>c. c \<noteq> 46) (rev name)) else [])"

text \<open>
  The files: what \<^verbatim>\<open>' '.join(pd.read_csv(file_path).astype(str).sum())\<close> and
  \<^verbatim>\<open>open(file_path, 'r', encoding='utf-8').read()\<close> give for a path, \<open>None\<close> when they
  raise.
\<close>

record filesystem =
  read_csv_text :: "pystr \<Rightarrow> pystr option"
  read_txt :: "pystr \<Rightarrow> pystr option"

definition extract_text :: "ucd \<Rightarrow> filesystem \<Rightarrow> pystr \<Rightarrow> world \<Rightarrow> pystr \<times> world" where
  "extract_text U fs file_path w =
     (let file_ext = str_lower U (splitext_ext file_path)
      in if file_ext = str ''.csv''
         then (case read_csv_text fs file_path of
                 Some text \<Rightarrow> (text, w)
               | None \<Rightarrow> ([], add_log (Error_processing_file file_path) w))
         else if file_ext = str ''.txt''
         then (case read_txt fs file_path of
                 Some text \<Rightarrow> (text, w)
               | None \<Rightarrow> ([], add_log (Error_processing_file file_path) w))
         else ([], add_log (Warning_unsupported_format file_ext) w))"

text \<open>\<^verbatim>\<open>set(word for word in text.split() if word.isalpha())\<close>\<close>

definition words :: "ucd \<Rightarrow> pystr \<Rightarrow> pystr set" where
  "words U text = set (filter (str_isalpha U) (str_split U text))"

text \<open>
  The body of the loop of \<^verbatim>\<open>process_file\<close>, over the words in the order the set yields
  them; \<open>flt\<close> gives the fault the environment injects into the insertion of each word.
  An exception of \<^verbatim>\<open>insert_word\<close> ends the loop.
\<close>

fun process_words :: "ucd \<Rightarrow> (pystr \<Rightarrow> fault) \<Rightarrow> pystr list \<Rightarrow> world \<Rightarrow> outcome" where
  "process_words U flt [] w = Returned w"
| "process_words U flt (word # ws) w =
     (let simple_value = calculate_gematria U word;
          hebrew_value = calculate_hebrew_gematria U word;
          english_value = calculate_english_gematria U word
      in case insert_word (flt word) word simple_value hebrew_value english_value w of
           Raised x w' \<Rightarrow> Raised x w'
         | Returned w' \<Rightarrow>
             process_words U flt ws
               (add_log (Info_processed word simple_value hebrew_value english_value) w'))"

text \<open>
  Python does not specify the order in which a set is iterated: \<open>iter_order\<close> is that
  order, a parameter, and \<open>iterates\<close> says that it yields every element of the set once.
\<close>

definition iterates :: "(pystr set \<Rightarrow> pystr list) \<Rightarrow> pystr set \<Rightarrow> bool" where
  "iterates iter_order S = (set (iter_order S) = S \<and> distinct (iter_order S))"

definition process_file ::
  "ucd \<Rightarrow> filesystem \<Rightarrow> (pystr set \<Rightarrow> pystr list) \<Rightarrow> (pystr \<Rightarrow> fault) \<Rightarrow> pystr \<Rightarrow> world \<Rightarrow> outcome"
  where
  "process_file U fs iter_order flt file_path w =
     (case extract_text U fs file_path w of
        (text, w') \<Rightarrow> process_words U flt (iter_order (words U text)) w')"

text \<open>The row the loop writes for a word, and the rows of a word in a table.\<close>

definition scored_row :: "ucd \<Rightarrow> pystr \<Rightarrow> row" where
  "scored_row U word =
     (word, calculate_gematria U word, calculate_hebrew_gematria U word,
      calculate_english_gematria U word)"

definition rows_of :: "pystr \<Rightarrow> row list \<Rightarrow> row list" where
  "rows_of word rows = filter (\<lambda>r. fst r = word) rows"

text \<open>
  The extractor cannot produce text: the extension is neither \<^verbatim>\<open>.csv\<close> nor \<^verbatim>\<open>.txt\<close>, or
  the read step of the format raises.
\<close>

definition extraction_fails :: "ucd \<Rightarrow> filesystem \<Rightarrow> pystr \<Rightarrow> bool" where
  "extraction_fails U fs file_path =
     (let file_ext = str_lower U (splitext_ext file_path)
      in if file_ext = str ''.csv'' then read_csv_text fs file_path = None
         else if file_ext = str ''.txt'' then read_txt fs file_path = None
         else True)"

text \<open>\<^verbatim>\<open>main\<close>, after the command line is parsed: \<open>cf\<close> is the fault injected into
  \<^verbatim>\<open>create_database\<close>.\<close>

definition main ::
  "ucd \<Rightarrow> filesystem \<Rightarrow> (pystr set \<Rightarrow> pystr list) \<Rightarrow> fault \<Rightarrow> (pystr \<Rightarrow> fault) \<Rightarrow> pystr \<Rightarrow> world
     \<Rightarrow> outcome" where
  "main U fs iter_order cf flt file arg_world =
     (case create_database cf arg_world of
        Raised x w' \<Rightarrow> Raised x w'
      | Returned w' \<Rightarrow> process_file U fs iter_order flt file w')"

section \<open>Facts about the built-ins and the tables\<close>

lemma ascii_conformantD:
  assumes "ascii_conformant U" and "c < 128"
  shows "isalpha_cp U c = is_ascii_letter c"
    and "tolower_full U c = [ascii_tolower c]"
    and "isspace_cp U c = is_ascii_space c"
  using assms by (auto simp: ascii_conformant_def list_all_iff)

lemma ascii_conformant_fragment: "ascii_conformant unicode_fragment"
  by code_simp

lemma ascii_tolower_less: "c < 128 \<Longrightarrow> ascii_tolower c < 128"
  by (auto simp: ascii_tolower_def is_ascii_upper_def)

lemma is_ascii_letter_less: "is_ascii_letter c \<Longrightarrow> c < 128"
  by (auto simp: is_ascii_letter_def is_ascii_upper_def is_ascii_lower_def)

lemma is_ascii_letter_tolower: "is_ascii_letter (ascii_tolower c) = is_ascii_letter c"
  by (auto simp: ascii_tolower_def is_ascii_letter_def is_ascii_upper_def is_ascii_lower_def)

lemma is_ascii_lower_tolower: "is_ascii_lower (ascii_tolower c) = is_ascii_letter c"
  by (auto simp: ascii_tolower_def is_ascii_letter_def is_ascii_upper_def is_ascii_lower_def)

lemma english_values_eq:
  "english_values c = (if is_ascii_lower c then Some (6 * (int c - 96)) else None)"
proof (cases "is_ascii_lower c")
  case True
  then have "c \<in> {97..<123}" by (simp add: is_ascii_lower_def)
  then have "c \<in> set [97..<123]" by (simp only: set_upt)
  then have "english_values c = Some (6 * (int c - 96))"
    unfolding english_values_def by (simp add: upt_rec) (elim disjE; simp)
  with True show ?thesis by simp
next
  case False
  then have "english_values c = None"
    by (auto simp: english_values_def is_ascii_lower_def)
  with False show ?thesis by simp
qed

lemma hebrew_values_dom: "(hebrew_values c \<noteq> None) = is_ascii_lower c"
proof (cases "is_ascii_lower c")
  case True
  then have "c \<in> {97..<123}" by (simp add: is_ascii_lower_def)
  then have "c \<in> set [97..<123]" by (simp only: set_upt)
  then have "hebrew_values c \<noteq> None"
    unfolding hebrew_values_def by (simp add: upt_rec) (elim disjE; simp)
  with True show ?thesis by simp
next
  case False
  then have "hebrew_values c = None"
    by (auto simp: hebrew_values_def is_ascii_lower_def)
  with False show ?thesis by simp
qed

lemma do_lower_ascii:
  assumes "ascii_conformant U"
  shows "\<forall>c\<in>set s. c < 128 \<Longrightarrow> do_lower U prev s = map ascii_tolower s"
proof (induction s arbitrary: prev)
  case Nil
  show ?case by simp
next
  case (Cons c s)
  then have "c < 128" by simp
  then have "lower_ucs4 U prev c s = [ascii_tolower c]"
    using assms by (simp add: lower_ucs4_def ascii_conformantD)
  with Cons show ?case by simp
qed

lemma str_lower_ascii:
  "ascii_conformant U \<Longrightarrow> is_ascii s \<Longrightarrow> str_lower U s = map ascii_tolower s"
  by (simp add: str_lower_def is_ascii_def list_all_iff do_lower_ascii)

lemma calculate_gematria_ascii:
  assumes "ascii_conformant U" and "is_ascii word"
  shows "calculate_gematria U word = simple_score_spec word"
proof -
  have "filter (isalpha_cp U) (map ascii_tolower s) = map ascii_tolower (filter is_ascii_letter s)"
    if "\<forall>c\<in>set s. c < 128" for s
    using that assms(1)
    by (induction s) (simp_all add: ascii_conformantD ascii_tolower_less is_ascii_letter_tolower)
  then show ?thesis
    using assms
    by (simp add: calculate_gematria_def simple_score_spec_def str_lower_ascii is_ascii_def
        list_all_iff comp_def)
qed

lemma calculate_gematria_examples:
  assumes "ascii_conformant U"
  shows "calculate_gematria U (str ''abc'') = 6" and "calculate_gematria U (str ''z'') = 26"
proof -
  have "is_ascii (str ''abc'')" "is_ascii (str ''z'')" by (simp_all add: is_ascii_def str_def)
  with assms show "calculate_gematria U (str ''abc'') = 6" "calculate_gematria U (str ''z'') = 26"
    by (simp_all add: calculate_gematria_ascii simple_score_spec_def str_def is_ascii_letter_def
        is_ascii_upper_def is_ascii_lower_def ascii_tolower_def)
qed

lemma calculate_gematria_no_letters:
  "\<forall>c\<in>set (str_lower U word). \<not> isalpha_cp U c \<Longrightarrow> calculate_gematria U word = 0"
  by (simp add: calculate_gematria_def filter_False)

lemma calculate_gematria_ascii_no_letters:
  assumes "ascii_conformant U" and "is_ascii word" and "\<forall>c\<in>set word. \<not> is_ascii_letter c"
  shows "calculate_gematria U word = 0"
  using assms by (simp add: calculate_gematria_ascii simple_score_spec_def filter_False)

lemma ascii_case_variants_lower:
  assumes "ascii_conformant U" and "is_ascii u" and "is_ascii v"
    and "map ascii_tolower u = map ascii_tolower v"
  shows "str_lower U u = str_lower U v"
  using assms by (simp add: str_lower_ascii)

lemma sigma_cases: "handle_capital_sigma U prev rest = 0x3C2 \<or> handle_capital_sigma U prev rest = 0x3C3"
  by (simp add: handle_capital_sigma_def Let_def)

lemma filter_do_lower:
  assumes "\<not> P 0x3C2" and "\<not> P 0x3C3"
  shows "filter P (do_lower U prev s) = filter P (concat (map (lower_nosigma U) s))"
proof (induction s arbitrary: prev)
  case Nil
  show ?case by simp
next
  case (Cons c s)
  have "filter P (lower_ucs4 U prev c s) = filter P (lower_nosigma U c)"
    using assms sigma_cases [of U prev s]
    by (auto simp: lower_ucs4_def lower_nosigma_def)
  with Cons show ?case by simp
qed

lemma do_lower_no_sigma:
  "0x3A3 \<notin> set s \<Longrightarrow> do_lower U prev s = concat (map (tolower_full U) s)"
  by (induction s arbitrary: prev) (auto simp: lower_ucs4_def)


subsection \<open>Additivity\<close>

lemma table_filter_sum:
  "sum_list (map (\<lambda>c. the (t c)) (filter (\<lambda>c. t c \<noteq> None) s)) = table_sum t s"
  by (induction s) (auto simp: table_sum_def)

lemma hebrew_as_table_sum:
  "calculate_hebrew_gematria U word = table_sum hebrew_values (str_lower U word)"
  unfolding calculate_hebrew_gematria_def by (rule table_filter_sum)

lemma english_as_table_sum:
  "calculate_english_gematria U word = table_sum english_values (str_lower U word)"
  unfolding calculate_english_gematria_def by (rule table_filter_sum)

lemma hebrew_values_sigma: "hebrew_values 0x3C2 = None" "hebrew_values 0x3C3 = None"
  by (simp_all add: hebrew_values_def)

lemma english_values_sigma: "english_values 0x3C2 = None" "english_values 0x3C3 = None"
  by (simp_all add: english_values_def)

lemma calculate_hebrew_gematria_append:
  "calculate_hebrew_gematria U (u @ v) =
     calculate_hebrew_gematria U u + calculate_hebrew_gematria U v"
  by (simp add: calculate_hebrew_gematria_def str_lower_def filter_do_lower hebrew_values_sigma)

lemma calculate_english_gematria_append:
  "calculate_english_gematria U (u @ v) =
     calculate_english_gematria U u + calculate_english_gematria U v"
  by (simp add: calculate_english_gematria_def str_lower_def filter_do_lower english_values_sigma)

lemma calculate_gematria_append_no_sigma:
  "0x3A3 \<notin> set u \<Longrightarrow> 0x3A3 \<notin> set v \<Longrightarrow>
     calculate_gematria U (u @ v) = calculate_gematria U u + calculate_gematria U v"
  by (simp add: calculate_gematria_def str_lower_def do_lower_no_sigma)

lemma scores_empty:
  "calculate_gematria U [] = 0" "calculate_hebrew_gematria U [] = 0"
  "calculate_english_gematria U [] = 0"
  by (simp_all add: calculate_gematria_def calculate_hebrew_gematria_def
      calculate_english_gematria_def str_lower_def)

lemma simple_score_spec_append:
  "simple_score_spec (u @ v) = simple_score_spec u + simple_score_spec v"
  by (simp add: simple_score_spec_def)


lemma hebrew_lower_word:
  assumes "ascii_conformant U" and "list_all is_ascii_lower word"
  shows "calculate_hebrew_gematria U word = sum_list (map (\<lambda>c. the (hebrew_values c)) word)"
proof -
  from assms(2) have low: "\<forall>c\<in>set word. is_ascii_lower c" by (simp add: list_all_iff)
  then have "is_ascii word"
    by (auto simp: is_ascii_def list_all_iff is_ascii_lower_def)
  moreover have "map ascii_tolower word = word"
    using low by (induction word) (auto simp: ascii_tolower_def is_ascii_lower_def is_ascii_upper_def)
  ultimately have "str_lower U word = word"
    using assms(1) by (simp add: str_lower_ascii)
  moreover have "filter (\<lambda>c. hebrew_values c \<noteq> None) word = word"
    using low by (simp only: hebrew_values_dom) simp
  ultimately show ?thesis
    by (simp only: calculate_hebrew_gematria_def)
qed

lemma hebrew_ascii_word:
  assumes "ascii_conformant U" and "is_ascii word"
  shows "calculate_hebrew_gematria U word = table_sum hebrew_values (map ascii_tolower word)"
  using assms by (simp add: hebrew_as_table_sum str_lower_ascii)

lemma hebrew_letter_word:
  assumes "ascii_conformant U" and "list_all is_ascii_letter word"
  shows "calculate_hebrew_gematria U word
           = sum_list (map (\<lambda>c. the (hebrew_values (ascii_tolower c))) word)"
proof -
  from assms(2) have ltr: "\<forall>c\<in>set word. is_ascii_letter c" by (simp add: list_all_iff)
  then have "is_ascii word"
    by (auto simp: is_ascii_def list_all_iff dest: is_ascii_letter_less)
  with assms(1) have "calculate_hebrew_gematria U word
      = table_sum hebrew_values (map ascii_tolower word)"
    by (rule hebrew_ascii_word)
  also have "\<dots> = sum_list (map (\<lambda>c. the (hebrew_values (ascii_tolower c))) word)"
    using ltr
  proof (induction word)
    case Nil
    show ?case by (simp add: table_sum_def)
  next
    case (Cons c word)
    then have "is_ascii_lower (ascii_tolower c)" by (simp add: is_ascii_lower_tolower)
    then have "hebrew_values (ascii_tolower c) \<noteq> None" by (simp only: hebrew_values_dom)
    then obtain v where "hebrew_values (ascii_tolower c) = Some v" by blast
    with Cons show ?case by (simp add: table_sum_def)
  qed
  finally show ?thesis .
qed

lemma hebrew_values_table:
  "map hebrew_values [97..<123] =
     map Some [1, 2, 3, 4, 5, 6, 7, 8, 9, 600, 10, 20, 30, 40, 50, 60, 70, 80, 90, 100, 200,
               700, 900, 300, 400, 500]"
  by (simp add: hebrew_values_def upt_rec)

section \<open>The scorers: claims C2, C6, C1 and C10\<close>

text \<open>
  Claim C2.  The Hebrew score is the sum of the fixed table over the lowercased characters
  of the word, a character without an entry counting 0.  The keys of the table are exactly
  the 26 letters \<open>a-z\<close>, with the values of the source.  On an ASCII word the score is
  the sum of the table over the word with \<open>A-Z\<close> turned into \<open>a-z\<close>, so every letter of
  either case is counted with the value of its lower-case letter and no letter is dropped.
  The scores of "a", "j" and "w" are 1, 600 and 900; "JAW" and "Ja w!9" score 1501.
\<close>

theorem hebrew_score_sums_table:
  assumes "ascii_conformant U"
  shows "calculate_hebrew_gematria U word = table_sum hebrew_values (str_lower U word)
       \<and> dom hebrew_values = {c. is_ascii_lower c}
       \<and> map hebrew_values [97..<123] =
           map Some [1, 2, 3, 4, 5, 6, 7, 8, 9, 600, 10, 20, 30, 40, 50, 60, 70, 80, 90, 100,
                     200, 700, 900, 300, 400, 500]
       \<and> (is_ascii word \<longrightarrow>
            calculate_hebrew_gematria U word = table_sum hebrew_values (map ascii_tolower word))
       \<and> (list_all is_ascii_letter word \<longrightarrow>
            calculate_hebrew_gematria U word
              = sum_list (map (\<lambda>c. the (hebrew_values (ascii_tolower c))) word))
       \<and> (list_all is_ascii_lower word \<longrightarrow>
            calculate_hebrew_gematria U word = sum_list (map (\<lambda>c. the (hebrew_values c)) word))
       \<and> calculate_hebrew_gematria U (str ''a'') = 1
       \<and> calculate_hebrew_gematria U (str ''j'') = 600
       \<and> calculate_hebrew_gematria U (str ''w'') = 900
       \<and> calculate_hebrew_gematria U (str ''JAW'') = 1501
       \<and> calculate_hebrew_gematria U (str ''Ja w!9'') = 1501"
proof -
  have dom: "dom hebrew_values = {c. is_ascii_lower c}"
    using hebrew_values_dom by (auto simp: dom_def)
  have ex: "calculate_hebrew_gematria U (str s) = table_sum hebrew_values (map ascii_tolower (str s))"
    if "is_ascii (str s)" for s
    using assms that by (rule hebrew_ascii_word)
  have a: "calculate_hebrew_gematria U (str ''a'') = 1"
    by (subst ex) (simp_all add: str_def is_ascii_def table_sum_def ascii_tolower_def
        is_ascii_upper_def hebrew_values_def)
  have j: "calculate_hebrew_gematria U (str ''j'') = 600"
    by (subst ex) (simp_all add: str_def is_ascii_def table_sum_def ascii_tolower_def
        is_ascii_upper_def hebrew_values_def)
  have w: "calculate_hebrew_gematria U (str ''w'') = 900"
    by (subst ex) (simp_all add: str_def is_ascii_def table_sum_def ascii_tolower_def
        is_ascii_upper_def hebrew_values_def)
  have up: "calculate_hebrew_gematria U (str ''JAW'') = 1501"
    by (subst ex) (simp_all add: str_def is_ascii_def table_sum_def ascii_tolower_def
        is_ascii_upper_def hebrew_values_def)
  have mixed: "calculate_hebrew_gematria U (str ''Ja w!9'') = 1501"
    by (subst ex) (simp_all add: str_def is_ascii_def table_sum_def ascii_tolower_def
        is_ascii_upper_def hebrew_values_def)
  show ?thesis
    using assms dom a j w up mixed hebrew_values_table hebrew_as_table_sum [of U word]
      hebrew_ascii_word [of U word] hebrew_letter_word [of U word] hebrew_lower_word [of U word]
    by blast
qed

theorem hebrew_score_sums_table_witness:
  "ascii_conformant unicode_fragment
   \<and> is_ascii (str ''JAW'')
   \<and> list_all is_ascii_letter (str ''JAW'')
   \<and> calculate_hebrew_gematria unicode_fragment (str ''JAW'') = 1501
   \<and> list_all is_ascii_lower (str ''jaw'')
   \<and> calculate_hebrew_gematria unicode_fragment (str ''jaw'') = 1501"
proof -
  have h: "ascii_conformant unicode_fragment" by (rule ascii_conformant_fragment)
  have a: "is_ascii (str ''JAW'')" by (simp add: str_def is_ascii_def)
  have l: "list_all is_ascii_letter (str ''JAW'')"
    by (simp add: str_def is_ascii_letter_def is_ascii_upper_def)
  have l': "list_all is_ascii_lower (str ''jaw'')" by (simp add: str_def is_ascii_lower_def)
  have v: "sum_list (map (\<lambda>c. the (hebrew_values c)) (str ''jaw'')) = 1501"
    by (simp add: str_def hebrew_values_def)
  from hebrew_score_sums_table [OF h, of "str ''jaw''"] l' v
  have low: "calculate_hebrew_gematria unicode_fragment (str ''jaw'') = 1501" by simp
  from hebrew_score_sums_table [OF h, of "str ''JAW''"]
  have "calculate_hebrew_gematria unicode_fragment (str ''JAW'') = 1501" by blast
  with h a l l' low show ?thesis by blast
qed

text \<open>
  Claim C6.  The English score of "a" is 6, that of "z" is 156, and for every single
  Latin letter \<open>c\<close> (upper or lower case) the English score of \<open>c\<close> is six times its
  simple score.
\<close>

theorem english_is_six_times_simple:
  assumes "ascii_conformant U"
  shows "calculate_english_gematria U (str ''a'') = 6
       \<and> calculate_english_gematria U (str ''z'') = 156
       \<and> (\<forall>c. is_ascii_letter c \<longrightarrow>
             calculate_english_gematria U [c] = 6 * calculate_gematria U [c])"
proof -
  have one: "calculate_english_gematria U [c] = 6 * (int (ascii_tolower c) - 96)
           \<and> calculate_gematria U [c] = int (ascii_tolower c) - 96"
    if "is_ascii_letter c" for c
  proof -
    from that have "c < 128" by (rule is_ascii_letter_less)
    then have "is_ascii [c]" by (simp add: is_ascii_def)
    with assms have low: "str_lower U [c] = [ascii_tolower c]" by (simp add: str_lower_ascii)
    have "is_ascii_lower (ascii_tolower c)" using that by (simp add: is_ascii_lower_tolower)
    then have "english_values (ascii_tolower c) = Some (6 * (int (ascii_tolower c) - 96))"
      by (simp add: english_values_eq)
    then have "calculate_english_gematria U [c] = 6 * (int (ascii_tolower c) - 96)"
      by (simp add: calculate_english_gematria_def low)
    moreover have "calculate_gematria U [c] = int (ascii_tolower c) - 96"
      using assms \<open>is_ascii [c]\<close> that
      by (simp add: calculate_gematria_ascii simple_score_spec_def)
    ultimately show ?thesis by simp
  qed
  have "calculate_english_gematria U (str ''a'') = 6"
    using one [of 97] by (simp add: str_def is_ascii_letter_def is_ascii_lower_def
        ascii_tolower_def is_ascii_upper_def)
  moreover have "calculate_english_gematria U (str ''z'') = 156"
    using one [of 122] by (simp add: str_def is_ascii_letter_def is_ascii_lower_def
        ascii_tolower_def is_ascii_upper_def)
  ultimately show ?thesis using one by simp
qed

theorem english_is_six_times_simple_witness:
  "ascii_conformant unicode_fragment \<and> is_ascii_letter 77
   \<and> calculate_english_gematria unicode_fragment [77] = 6 * calculate_gematria unicode_fragment [77]
   \<and> calculate_gematria unicode_fragment [77] = 13"
proof -
  have h: "ascii_conformant unicode_fragment" by (rule ascii_conformant_fragment)
  have l: "is_ascii_letter 77" by (simp add: is_ascii_letter_def is_ascii_upper_def)
  have g: "calculate_gematria unicode_fragment [77] = 13" by code_simp
  from english_is_six_times_simple [OF h] h l g show ?thesis by blast
qed

text \<open>
  Claim C1.  The claim is that only ASCII letters contribute to the simple score.  The
  code tests \<^verbatim>\<open>char.isalpha()\<close>, which is true of every Unicode letter: the string "\<open>e\<close>
  with acute accent" (\<open>U+00E9\<close>) scores 233 - 96 = 137 where the formula of the
  specification gives 0, and "caf\<open>e\<close>-acute" scores 147 where the formula gives 10.
  On ASCII strings code and formula agree (lemma \<open>calculate_gematria_ascii\<close>): "abc"
  scores 6, "z" scores 26 and a string without letters scores 0 (lemmas
  \<open>calculate_gematria_examples\<close>, \<open>calculate_gematria_ascii_no_letters\<close>).
\<close>

theorem calculate_gematria_counts_non_ascii_letter:
  "calculate_gematria unicode_fragment [0xE9] = 137
   \<and> simple_score_spec [0xE9] = 0
   \<and> calculate_gematria unicode_fragment (str ''caf'' @ [0xE9]) = 147
   \<and> simple_score_spec (str ''caf'' @ [0xE9]) = 10"
  by code_simp

text \<open>
  Claim C10.  The Hebrew and the English score are additive over concatenation for all
  strings (lemmas \<open>calculate_hebrew_gematria_append\<close>, \<open>calculate_english_gematria_append\<close>),
  and the simple score is for strings without the Greek capital sigma (lemma
  \<open>calculate_gematria_append_no_sigma\<close>); all three are 0 on the empty string (lemma
  \<open>scores_empty\<close>).  The simple score is not additive in general: it counts non-ASCII
  letters by code point, and \<^verbatim>\<open>str.lower\<close> turns a capital sigma at the end of a word
  into \<open>U+03C2\<close> and elsewhere into \<open>U+03C3\<close>.  With u = ALPHA SIGMA and v = ALPHA the
  score of u ++ v is 2565 and the scores of u and v add up to 2564.
\<close>

theorem calculate_gematria_not_additive:
  "calculate_gematria unicode_fragment ([0x391, 0x3A3] @ [0x391]) = 2565
   \<and> calculate_gematria unicode_fragment [0x391, 0x3A3]
       + calculate_gematria unicode_fragment [0x391] = 2564"
  by code_simp


section \<open>The store: claims C3, C9 and C4\<close>

lemma rows_of_insert_or_ignore:
  "rows_of k (insert_or_ignore rows r) =
     (if fst r = k \<and> k \<notin> fst ` set rows then rows_of k rows @ [r] else rows_of k rows)"
  by (auto simp: rows_of_def insert_or_ignore_def)

lemma rows_of_absent: "k \<notin> fst ` set rows \<Longrightarrow> rows_of k rows = []"
  by (induction rows) (auto simp: rows_of_def)

lemma keys_insert_or_ignore:
  "fst ` set (insert_or_ignore rows r) = insert (fst r) (fst ` set rows)"
  by (auto simp: insert_or_ignore_def)




lemma insert_word_no_fault:
  "words_table w = Some rows \<Longrightarrow> bindable (word, s, h, e) \<Longrightarrow>
     insert_word NoFault word s h e w =
       Returned (w\<lparr>words_table := Some (insert_or_ignore rows (word, s, h, e))\<rparr>)"
  by (simp add: insert_word_def execute_insert_def)

lemma insert_word_not_bindable:
  "\<not> bindable (word, s, h, e) \<Longrightarrow> f \<noteq> ConnectFails \<Longrightarrow>
     insert_word f word s h e w = Returned (add_log Error_inserting w)"
  by (simp add: insert_word_def execute_insert_def split: option.splits)





text \<open>
  Claim C9.  When the table exists, \<^verbatim>\<open>create_database\<close> leaves its rows as they are,
  whatever fault the environment injects, and without a fault it changes nothing at all;
  when the table is absent it creates an empty one.
\<close>

theorem create_database_keeps_records:
  "(words_table w = Some rows \<longrightarrow> words_table (final_world (create_database f w)) = Some rows)
   \<and> (words_table w = Some rows \<longrightarrow> create_database NoFault w = Returned w)
   \<and> (words_table w = None \<longrightarrow>
        create_database NoFault w = Returned (w\<lparr>words_table := Some []\<rparr>))"
  by (cases f) (auto simp: create_database_def execute_create_def add_log_def)

theorem create_database_keeps_records_witness:
  "words_table \<lparr>words_table = Some [(str ''cat'', 24, 104, 144)], log = []\<rparr>
     = Some [(str ''cat'', 24, 104, 144)]
   \<and> create_database NoFault \<lparr>words_table = Some [(str ''cat'', 24, 104, 144)], log = []\<rparr>
     = Returned \<lparr>words_table = Some [(str ''cat'', 24, 104, 144)], log = []\<rparr>
   \<and> words_table \<lparr>words_table = None, log = []\<rparr> = None
   \<and> create_database NoFault \<lparr>words_table = None, log = []\<rparr>
     = Returned \<lparr>words_table = Some [], log = []\<rparr>"
  using create_database_keeps_records
          [of "\<lparr>words_table = Some [(str ''cat'', 24, 104, 144)], log = []\<rparr>"
              "[(str ''cat'', 24, 104, 144)]" NoFault]
        create_database_keeps_records [of "\<lparr>words_table = None, log = []\<rparr>" "[]" NoFault]
  by simp

lemma insert_word_caught:
  "f = ExecuteFails \<or> f = CommitFails \<Longrightarrow>
     insert_word f word s h e w = Returned (add_log Error_inserting w)"
  by (auto simp: insert_word_def execute_insert_def split: option.splits)

lemma insert_word_no_table:
  "words_table w = None \<Longrightarrow> f \<noteq> ConnectFails \<Longrightarrow>
     insert_word f word s h e w = Returned (add_log Error_inserting w)"
  by (auto simp: insert_word_def execute_insert_def)

lemma insert_word_returns:
  "f \<noteq> ConnectFails \<Longrightarrow> \<exists>w1. insert_word f word s h e w = Returned w1"
  by (simp add: insert_word_def split: option.splits)

lemma process_words_returns:
  "\<forall>x\<in>set ws. flt x \<noteq> ConnectFails \<Longrightarrow> \<exists>w'. process_words U flt ws w = Returned w'"
proof (induction ws arbitrary: w)
  case Nil
  show ?case by simp
next
  case (Cons x ws)
  then have "flt x \<noteq> ConnectFails" by simp
  from insert_word_returns [OF this]
  obtain w1 where "insert_word (flt x) x (calculate_gematria U x)
      (calculate_hebrew_gematria U x) (calculate_english_gematria U x) w = Returned w1"
    by blast
  with Cons show ?case by (simp add: Let_def)
qed

lemma process_words_raises:
  "x \<in> set ws \<Longrightarrow> flt x = ConnectFails \<Longrightarrow>
     \<exists>w'. process_words U flt ws w = Raised UnboundLocalError w'"
proof (induction ws arbitrary: w)
  case Nil
  then show ?case by simp
next
  case (Cons y ws)
  show ?case
  proof (cases "flt y = ConnectFails")
    case True
    then show ?thesis by (simp add: insert_word_def Let_def)
  next
    case False
    with Cons.prems have "x \<in> set ws" by auto
    from insert_word_returns [OF False]
    obtain w1 where "insert_word (flt y) y (calculate_gematria U y)
        (calculate_hebrew_gematria U y) (calculate_english_gematria U y) w = Returned w1"
      by blast
    with Cons.IH [OF \<open>x \<in> set ws\<close> Cons.prems(2)] show ?thesis by (simp add: Let_def)
  qed
qed

section \<open>Tokenization: claim C5\<close>

lemma split_from_nonspace:
  "\<forall>c\<in>set t. \<not> isspace_cp U c \<Longrightarrow>
     split_from U cur t = (if cur @ t = [] then [] else [cur @ t])"
  by (induction t arbitrary: cur) auto

lemma split_from_space:
  "isspace_cp U c \<Longrightarrow>
     split_from U cur (a @ c # b) = split_from U cur a @ split_from U [] b"
  by (induction a arbitrary: cur) auto

lemma split_from_tokens:
  "\<forall>c\<in>set cur. \<not> isspace_cp U c \<Longrightarrow> t \<in> set (split_from U cur s) \<Longrightarrow>
     t \<noteq> [] \<and> (\<forall>c\<in>set t. \<not> isspace_cp U c)"
proof (induction s arbitrary: cur)
  case Nil
  then show ?case by (auto split: if_splits)
next
  case (Cons a s)
  show ?case
  proof (cases "isspace_cp U a")
    case True
    with Cons.prems have "t = cur \<and> cur \<noteq> [] \<or> t \<in> set (split_from U [] s)"
      by (auto split: if_splits)
    then show ?thesis
      using Cons.IH [of "[]"] Cons.prems(1) by auto
  next
    case False
    with Cons.prems have "t \<in> set (split_from U (cur @ [a]) s)" by simp
    moreover have "\<forall>c\<in>set (cur @ [a]). \<not> isspace_cp U c"
      using Cons.prems(1) False by simp
    ultimately show ?thesis by (rule Cons.IH [rotated])
  qed
qed

lemma concat_split_from:
  "concat (split_from U cur s) = cur @ filter (\<lambda>c. \<not> isspace_cp U c) s"
  by (induction s arbitrary: cur) auto

lemma words_eq:
  "words U text = {t \<in> set (str_split U text). \<forall>c\<in>set t. isalpha_cp U c}"
  using split_from_tokens [of "[]" U _ "text"]
  by (auto simp: words_def str_split_def str_isalpha_def list_all_iff)

lemma words_example:
  assumes "ascii_conformant U"
  shows "words U (str ''Cat cat DOG 123 dog!'') = {str ''Cat'', str ''cat'', str ''DOG''}"
proof -
  have "str_split U (str ''Cat cat DOG 123 dog!'')
      = [str ''Cat'', str ''cat'', str ''DOG'', str ''123'', str ''dog!'']"
    by (simp add: str_split_def str_def ascii_conformantD [OF assms] is_ascii_space_def)
  then show ?thesis
    by (simp add: words_def str_isalpha_def str_def ascii_conformantD [OF assms]
        is_ascii_letter_def is_ascii_upper_def is_ascii_lower_def) 
qed

text \<open>
  Claim C5.  \<^verbatim>\<open>str.split\<close> cuts the text at every whitespace character and keeps a
  non-empty chunk without whitespace as one token; the words are exactly the tokens all of
  whose characters are alphabetic, each as a whole, and as a set they hold every distinct
  string once.  The text "Cat cat DOG 123 dog!" gives the three words "Cat", "cat", "DOG".
\<close>

theorem tokenization:
  assumes "ascii_conformant U"
  shows "str_split U [] = []
       \<and> (\<forall>t. t \<noteq> [] \<and> (\<forall>c\<in>set t. \<not> isspace_cp U c) \<longrightarrow> str_split U t = [t])
       \<and> (\<forall>a c b. isspace_cp U c \<longrightarrow> str_split U (a @ c # b) = str_split U a @ str_split U b)
       \<and> words U text = {t \<in> set (str_split U text). \<forall>c\<in>set t. isalpha_cp U c}
       \<and> words U (str ''Cat cat DOG 123 dog!'') = {str ''Cat'', str ''cat'', str ''DOG''}
       \<and> card (words U (str ''Cat cat DOG 123 dog!'')) = 3"
proof -
  have 1: "str_split U [] = []" by (simp add: str_split_def)
  have 2: "\<forall>t. t \<noteq> [] \<and> (\<forall>c\<in>set t. \<not> isspace_cp U c) \<longrightarrow> str_split U t = [t]"
    by (simp add: str_split_def split_from_nonspace)
  have 3: "\<forall>a c b. isspace_cp U c \<longrightarrow> str_split U (a @ c # b) = str_split U a @ str_split U b"
    by (simp add: str_split_def split_from_space)
  have 5: "words U (str ''Cat cat DOG 123 dog!'') = {str ''Cat'', str ''cat'', str ''DOG''}"
    using assms by (rule words_example)
  have 6: "card {str ''Cat'', str ''cat'', str ''DOG''} = 3"
    by (simp add: str_def)
  from 1 2 3 5 6 words_eq [of U "text"] show ?thesis by simp
qed


theorem tokenization_witness:
  "ascii_conformant unicode_fragment
   \<and> isspace_cp unicode_fragment 32
   \<and> str_split unicode_fragment (str ''Cat'' @ 32 # str ''dog!'')
       = str_split unicode_fragment (str ''Cat'') @ str_split unicode_fragment (str ''dog!'')
   \<and> words unicode_fragment (str ''Cat cat DOG 123 dog!'')
       = {str ''Cat'', str ''cat'', str ''DOG''}"
proof -
  have h: "ascii_conformant unicode_fragment" by (rule ascii_conformant_fragment)
  have s: "isspace_cp unicode_fragment 32" by (simp add: unicode_fragment_def is_ascii_space_def)
  from tokenization [OF h, of "[]"] h s show ?thesis by blast
qed

section \<open>Extraction: claim C7\<close>

lemma words_empty: "words U [] = {}"
  by (simp add: words_def str_split_def)

lemma iterates_empty: "iterates iter_order {} \<Longrightarrow> iter_order {} = []"
  by (simp add: iterates_def)

lemma iterates_sorted: "iterates sorted_list_of_set (words U s)"
  by (simp add: iterates_def words_def)

lemma extract_text_fails:
  assumes "extraction_fails U fs file_path"
  shows "\<exists>r. extract_text U fs file_path w = ([], add_log r w)
           \<and> (r = Warning_unsupported_format (str_lower U (splitext_ext file_path))
              \<or> r = Error_processing_file file_path)"
  using assms by (auto simp: extraction_fails_def extract_text_def Let_def split: if_splits)

lemma extract_text_table: "words_table (snd (extract_text U fs file_path w)) = words_table w"
  by (auto simp: extract_text_def Let_def add_log_def split: option.splits)

text \<open>
  Claim C7.  When the extension is unsupported or the read step raises, \<^verbatim>\<open>extract_text\<close>
  returns the empty string, the empty string has no words, and \<^verbatim>\<open>process_file\<close> returns
  normally with the world as it was but for the one warning or error record in the log:
  no row is written and no word is reported.
\<close>

theorem failed_extraction_processes_nothing:
  assumes "extraction_fails U fs file_path" and "iterates iter_order {}"
  shows "fst (extract_text U fs file_path w) = []
       \<and> words U (fst (extract_text U fs file_path w)) = {}
       \<and> (\<exists>r. process_file U fs iter_order flt file_path w = Returned (add_log r w)
              \<and> (r = Warning_unsupported_format (str_lower U (splitext_ext file_path))
                 \<or> r = Error_processing_file file_path))"
proof -
  from extract_text_fails [OF assms(1), of w] obtain r where
    r: "extract_text U fs file_path w = ([], add_log r w)"
       "r = Warning_unsupported_format (str_lower U (splitext_ext file_path))
        \<or> r = Error_processing_file file_path"
    by blast
  have "process_file U fs iter_order flt file_path w = Returned (add_log r w)"
    using assms(2) by (simp add: process_file_def r(1) words_empty iterates_empty)
  with r show ?thesis by (auto simp: words_empty)
qed

theorem failed_extraction_processes_nothing_witness:
  "extraction_fails unicode_fragment \<lparr>read_csv_text = (\<lambda>p. None), read_txt = (\<lambda>p. None)\<rparr>
      (str ''notes.PDF'')
   \<and> extraction_fails unicode_fragment \<lparr>read_csv_text = (\<lambda>p. None), read_txt = (\<lambda>p. None)\<rparr>
      (str ''data.csv'')
   \<and> iterates sorted_list_of_set ({} :: pystr set)
   \<and> process_file unicode_fragment \<lparr>read_csv_text = (\<lambda>p. None), read_txt = (\<lambda>p. None)\<rparr>
        sorted_list_of_set (\<lambda>x. NoFault) (str ''notes.PDF'')
        \<lparr>words_table = Some [], log = []\<rparr>
      = Returned \<lparr>words_table = Some [], log = [Warning_unsupported_format (str ''.pdf'')]\<rparr>
   \<and> process_file unicode_fragment \<lparr>read_csv_text = (\<lambda>p. None), read_txt = (\<lambda>p. None)\<rparr>
        sorted_list_of_set (\<lambda>x. NoFault) (str ''data.csv'')
        \<lparr>words_table = Some [], log = []\<rparr>
      = Returned \<lparr>words_table = Some [], log = [Error_processing_file (str ''data.csv'')]\<rparr>"
proof -
  let ?fs = "\<lparr>read_csv_text = (\<lambda>p. None), read_txt = (\<lambda>p::pystr. None :: pystr option)\<rparr>"
  let ?w = "\<lparr>words_table = Some [], log = []\<rparr>"
  have e1: "str_lower unicode_fragment (splitext_ext (str ''notes.PDF'')) = str ''.pdf''"
    by code_simp
  have e2: "str_lower unicode_fragment (splitext_ext (str ''data.csv'')) = str ''.csv''"
    by code_simp
  have ne: "str ''.pdf'' \<noteq> str ''.csv''" "str ''.pdf'' \<noteq> str ''.txt''"
    by (simp_all add: str_def)
  have f1: "extraction_fails unicode_fragment ?fs (str ''notes.PDF'')"
    by (simp add: extraction_fails_def e1 ne)
  have f2: "extraction_fails unicode_fragment ?fs (str ''data.csv'')"
    by (simp add: extraction_fails_def e2)
  have it: "iterates sorted_list_of_set ({} :: pystr set)"
    by (simp add: iterates_def)
  have c2: "Warning_unsupported_format (str_lower unicode_fragment (splitext_ext (str ''data.csv'')))
      \<noteq> Error_processing_file (str ''data.csv'')" by simp
  have x1: "extract_text unicode_fragment ?fs (str ''notes.PDF'') ?w
      = ([], \<lparr>words_table = Some [], log = [Warning_unsupported_format (str ''.pdf'')]\<rparr>)"
    by (simp add: extract_text_def e1 ne add_log_def)
  have x2: "extract_text unicode_fragment ?fs (str ''data.csv'') ?w
      = ([], \<lparr>words_table = Some [], log = [Error_processing_file (str ''data.csv'')]\<rparr>)"
    by (simp add: extract_text_def e2 add_log_def)
  from failed_extraction_processes_nothing [OF f1 it, where flt = "\<lambda>x. NoFault" and w = ?w]
  have p1: "process_file unicode_fragment ?fs sorted_list_of_set (\<lambda>x. NoFault) (str ''notes.PDF'') ?w
      = Returned \<lparr>words_table = Some [], log = [Warning_unsupported_format (str ''.pdf'')]\<rparr>"
    by (simp add: process_file_def x1 words_empty)
  from failed_extraction_processes_nothing [OF f2 it, where flt = "\<lambda>x. NoFault" and w = ?w]
  have p2: "process_file unicode_fragment ?fs sorted_list_of_set (\<lambda>x. NoFault) (str ''data.csv'') ?w
      = Returned \<lparr>words_table = Some [], log = [Error_processing_file (str ''data.csv'')]\<rparr>"
    by (simp add: process_file_def x2 words_empty)
  from f1 f2 it p1 p2 show ?thesis by simp
qed


section \<open>The loop: claims C8 and C4\<close>

lemma fst_scored_row: "fst (scored_row U x) = x"
  by (simp add: scored_row_def)

lemma process_words_no_fault:
  "\<forall>x\<in>set ws. flt x = NoFault \<and> bindable (scored_row U x) \<Longrightarrow> words_table w = Some rows \<Longrightarrow>
     \<exists>w'. process_words U flt ws w = Returned w'
        \<and> words_table w' = Some (foldl (\<lambda>rs x. insert_or_ignore rs (scored_row U x)) rows ws)"
proof (induction ws arbitrary: w rows)
  case Nil
  then show ?case by simp
next
  case (Cons x ws)
  let ?rows1 = "insert_or_ignore rows (scored_row U x)"
  let ?w1 = "add_log (Info_processed x (calculate_gematria U x) (calculate_hebrew_gematria U x)
               (calculate_english_gematria U x)) (w\<lparr>words_table := Some ?rows1\<rparr>)"
  from Cons.prems have nf: "flt x = NoFault" and bd: "bindable (scored_row U x)"
    and rest: "\<forall>y\<in>set ws. flt y = NoFault \<and> bindable (scored_row U y)"
    by simp_all
  from bd have bd': "bindable (x, calculate_gematria U x, calculate_hebrew_gematria U x,
      calculate_english_gematria U x)" by (simp add: scored_row_def)
  have step: "process_words U flt (x # ws) w = process_words U flt ws ?w1"
    using insert_word_no_fault [OF Cons.prems(2) bd'] nf by (simp add: scored_row_def Let_def)
  have "words_table ?w1 = Some ?rows1" by (simp add: add_log_def)
  from Cons.IH [OF rest this] step show ?case by simp
qed

lemma rows_of_foldl_other:
  "x \<notin> set ws \<Longrightarrow>
     rows_of x (foldl (\<lambda>rs y. insert_or_ignore rs (scored_row U y)) rows ws) = rows_of x rows"
  by (induction ws arbitrary: rows) (auto simp: rows_of_insert_or_ignore fst_scored_row)

lemma rows_of_foldl_new:
  "distinct ws \<Longrightarrow> x \<in> set ws \<Longrightarrow> x \<notin> fst ` set rows \<Longrightarrow>
     rows_of x (foldl (\<lambda>rs y. insert_or_ignore rs (scored_row U y)) rows ws) = [scored_row U x]"
proof (induction ws arbitrary: rows)
  case Nil
  then show ?case by simp
next
  case (Cons y ws)
  show ?case
  proof (cases "y = x")
    case True
    with Cons.prems have "x \<notin> set ws" by simp
    then have "rows_of x (foldl (\<lambda>rs y. insert_or_ignore rs (scored_row U y))
                  (insert_or_ignore rows (scored_row U x)) ws)
               = rows_of x (insert_or_ignore rows (scored_row U x))"
      by (rule rows_of_foldl_other)
    also have "\<dots> = [scored_row U x]"
      using Cons.prems(3) by (simp add: rows_of_insert_or_ignore fst_scored_row rows_of_absent)
    finally show ?thesis using True by simp
  next
    case False
    with Cons.prems have "distinct ws" "x \<in> set ws"
      "x \<notin> fst ` set (insert_or_ignore rows (scored_row U y))"
      by (auto simp: keys_insert_or_ignore fst_scored_row)
    then show ?thesis using Cons.IH by simp
  qed
qed

lemma scores_of_lower:
  "str_lower U u = str_lower U v \<Longrightarrow>
     calculate_gematria U u = calculate_gematria U v
   \<and> calculate_hebrew_gematria U u = calculate_hebrew_gematria U v
   \<and> calculate_english_gematria U u = calculate_english_gematria U v"
  by (simp add: calculate_gematria_def calculate_hebrew_gematria_def
      calculate_english_gematria_def)

text \<open>
  Where the claim holds: two different words of the text with the same \<^verbatim>\<open>str.lower()\<close>,
  as two ASCII words that agree letter by letter up to case have (lemma
  \<open>ascii_case_variants_lower\<close>), get equal scores and one row each.
\<close>

lemma same_lower_two_records:
  assumes "str_lower U u = str_lower U v" and "u \<noteq> v"
    and "extract_text U fs file_path w = (text, w1)"
    and "u \<in> words U text" and "v \<in> words U text"
    and "iterates iter_order (words U text)"
    and "\<forall>x. flt x = NoFault" and "\<forall>x\<in>words U text. bindable (scored_row U x)"
    and "words_table w = Some rows" and "u \<notin> fst ` set rows" and "v \<notin> fst ` set rows"
  shows "calculate_gematria U u = calculate_gematria U v
       \<and> calculate_hebrew_gematria U u = calculate_hebrew_gematria U v
       \<and> calculate_english_gematria U u = calculate_english_gematria U v
       \<and> (\<exists>w' rows'. process_file U fs iter_order flt file_path w = Returned w'
             \<and> words_table w' = Some rows'
             \<and> rows_of u rows' = [(u, calculate_gematria U u, calculate_hebrew_gematria U u,
                                     calculate_english_gematria U u)]
             \<and> rows_of v rows' = [(v, calculate_gematria U v, calculate_hebrew_gematria U v,
                                     calculate_english_gematria U v)])"
proof -
  let ?ws = "iter_order (words U text)"
  from assms(6) have ws: "set ?ws = words U text" "distinct ?ws" by (simp_all add: iterates_def)
  have "words_table w1 = Some rows"
    using extract_text_table [of U fs file_path w] assms(3,9) by simp
  moreover have "\<forall>x\<in>set ?ws. flt x = NoFault \<and> bindable (scored_row U x)"
    using assms(7,8) ws(1) by simp
  ultimately obtain w' where
    w': "process_words U flt ?ws w1 = Returned w'"
        "words_table w' = Some (foldl (\<lambda>rs x. insert_or_ignore rs (scored_row U x)) rows ?ws)"
    using process_words_no_fault [of ?ws flt U w1 rows] by blast
  have run: "process_file U fs iter_order flt file_path w = Returned w'"
    by (simp add: process_file_def assms(3) w'(1))
  have "rows_of u (foldl (\<lambda>rs x. insert_or_ignore rs (scored_row U x)) rows ?ws) = [scored_row U u]"
    using ws assms(4,10) by (simp add: rows_of_foldl_new)
  moreover
  have "rows_of v (foldl (\<lambda>rs x. insert_or_ignore rs (scored_row U x)) rows ?ws) = [scored_row U v]"
    using ws assms(5,11) by (simp add: rows_of_foldl_new)
  ultimately show ?thesis
    using run w'(2) scores_of_lower [OF assms(1)] by (simp add: scored_row_def)
qed

lemma cat_run:
  "process_file unicode_fragment
        \<lparr>read_csv_text = (\<lambda>p. None), read_txt = (\<lambda>p. Some (str ''Cat cat DOG 123 dog!''))\<rparr>
        sorted_list_of_set (\<lambda>x. NoFault) (str ''in.txt'') \<lparr>words_table = Some [], log = []\<rparr>
       = Returned
           \<lparr>words_table = Some [(str ''Cat'', 24, 104, 144), (str ''DOG'', 26, 61, 156),
                                 (str ''cat'', 24, 104, 144)],
            log = [Info_processed (str ''Cat'') 24 104 144, Info_processed (str ''DOG'') 26 61 156,
                   Info_processed (str ''cat'') 24 104 144]\<rparr>"
proof -
  let ?fs = "\<lparr>read_csv_text = (\<lambda>p::pystr. None :: pystr option),
              read_txt = (\<lambda>p::pystr. Some (str ''Cat cat DOG 123 dog!''))\<rparr>"
  let ?w = "\<lparr>words_table = Some [], log = []\<rparr>"
  let ?t = "str ''Cat cat DOG 123 dog!''"
  have x: "extract_text unicode_fragment ?fs (str ''in.txt'') ?w = (?t, ?w)"
    by code_simp
  have o: "sorted_list_of_set (words unicode_fragment ?t) = [str ''Cat'', str ''DOG'', str ''cat'']"
    by code_simp
  have sc: "calculate_gematria unicode_fragment (str ''Cat'') = 24"
    "calculate_hebrew_gematria unicode_fragment (str ''Cat'') = 104"
    "calculate_english_gematria unicode_fragment (str ''Cat'') = 144"
    "calculate_gematria unicode_fragment (str ''DOG'') = 26"
    "calculate_hebrew_gematria unicode_fragment (str ''DOG'') = 61"
    "calculate_english_gematria unicode_fragment (str ''DOG'') = 156"
    "calculate_gematria unicode_fragment (str ''cat'') = 24"
    "calculate_hebrew_gematria unicode_fragment (str ''cat'') = 104"
    "calculate_english_gematria unicode_fragment (str ''cat'') = 144"
    by code_simp+
  have b: "bindable (str ''Cat'', 24, 104, 144)" "bindable (str ''DOG'', 26, 61, 156)"
    "bindable (str ''cat'', 24, 104, 144)"
    by (simp_all add: bindable_def utf8_encodable_def fits_int64_def str_def)
  have ne: "str ''DOG'' \<noteq> str ''Cat''" "str ''cat'' \<noteq> str ''Cat''" "str ''cat'' \<noteq> str ''DOG''"
    by (simp_all add: str_def)
  have "process_words unicode_fragment (\<lambda>x. NoFault) [str ''Cat'', str ''DOG'', str ''cat''] ?w
      = Returned
           \<lparr>words_table = Some [(str ''Cat'', 24, 104, 144), (str ''DOG'', 26, 61, 156),
                                 (str ''cat'', 24, 104, 144)],
            log = [Info_processed (str ''Cat'') 24 104 144, Info_processed (str ''DOG'') 26 61 156,
                   Info_processed (str ''cat'') 24 104 144]\<rparr>"
    by (simp add: sc b ne insert_word_def execute_insert_def insert_or_ignore_def add_log_def)
  then show ?thesis by (simp add: process_file_def x o)
qed

text \<open>
  Claim C8.  The claim is that two tokens that differ only in letter case get equal simple,
  Hebrew and English scores and one row each.  The text "ALPHA SIGMA, space, alpha sigma"
  (\<open>U+0391 U+03A3\<close>, \<open>U+03B1 U+03C3\<close>) has two such tokens: the second is the first
  with each letter replaced by its lower-case letter, and both are alphabetic, so both are
  kept.  \<^verbatim>\<open>str.lower\<close> turns the capital sigma at the end of the first into the final
  sigma \<open>U+03C2\<close> and leaves the second as it is, and the simple scorer counts these
  non-ASCII letters by code point: the two rows are written with simple scores 1715 and
  1716.  For "Cat" and "cat" the rows are as claimed (lemmas \<open>same_lower_two_records\<close>,
  \<open>cat_run\<close>).
\<close>

theorem case_variants_scored_differently:
  "concat (map (tolower_full unicode_fragment) [0x391, 0x3A3]) = [0x3B1, 0x3C3]
   \<and> str_split unicode_fragment [0x391, 0x3A3, 32, 0x3B1, 0x3C3]
       = [[0x391, 0x3A3], [0x3B1, 0x3C3]]
   \<and> str_isalpha unicode_fragment [0x391, 0x3A3]
   \<and> str_isalpha unicode_fragment [0x3B1, 0x3C3]
   \<and> calculate_gematria unicode_fragment [0x391, 0x3A3] = 1715
   \<and> calculate_gematria unicode_fragment [0x3B1, 0x3C3] = 1716
   \<and> process_file unicode_fragment
        \<lparr>read_csv_text = (\<lambda>p. None),
         read_txt = (\<lambda>p. Some [0x391, 0x3A3, 32, 0x3B1, 0x3C3])\<rparr>
        sorted_list_of_set (\<lambda>x. NoFault) (str ''in.txt'') \<lparr>words_table = Some [], log = []\<rparr>
       = Returned
           \<lparr>words_table = Some [([0x391, 0x3A3], 1715, 0, 0), ([0x3B1, 0x3C3], 1716, 0, 0)],
            log = [Info_processed [0x391, 0x3A3] 1715 0 0,
                   Info_processed [0x3B1, 0x3C3] 1716 0 0]\<rparr>"
proof -
  let ?t = "[0x391, 0x3A3, 32, 0x3B1, 0x3C3] :: pystr"
  let ?fs = "\<lparr>read_csv_text = (\<lambda>p::pystr. None :: pystr option),
              read_txt = (\<lambda>p::pystr. Some ?t)\<rparr>"
  let ?w = "\<lparr>words_table = Some [], log = []\<rparr>"
  have lo: "concat (map (tolower_full unicode_fragment) [0x391, 0x3A3]) = [0x3B1, 0x3C3]"
    by code_simp
  have sp: "str_split unicode_fragment ?t = [[0x391, 0x3A3], [0x3B1, 0x3C3]]"
    by code_simp
  have al: "str_isalpha unicode_fragment [0x391, 0x3A3]" "str_isalpha unicode_fragment [0x3B1, 0x3C3]"
    by code_simp+
  have x: "extract_text unicode_fragment ?fs (str ''in.txt'') ?w = (?t, ?w)"
    by code_simp
  have o: "sorted_list_of_set (words unicode_fragment ?t) = [[0x391, 0x3A3], [0x3B1, 0x3C3]]"
    by code_simp
  have sc: "calculate_gematria unicode_fragment [0x391, 0x3A3] = 1715"
    "calculate_hebrew_gematria unicode_fragment [0x391, 0x3A3] = 0"
    "calculate_english_gematria unicode_fragment [0x391, 0x3A3] = 0"
    "calculate_gematria unicode_fragment [0x3B1, 0x3C3] = 1716"
    "calculate_hebrew_gematria unicode_fragment [0x3B1, 0x3C3] = 0"
    "calculate_english_gematria unicode_fragment [0x3B1, 0x3C3] = 0"
    by code_simp+
  have b: "bindable ([0x391, 0x3A3], 1715, 0, 0)" "bindable ([0x3B1, 0x3C3], 1716, 0, 0)"
    by (simp_all add: bindable_def utf8_encodable_def fits_int64_def)
  have "process_words unicode_fragment (\<lambda>x. NoFault) [[0x391, 0x3A3], [0x3B1, 0x3C3]] ?w
      = Returned
           \<lparr>words_table = Some [([0x391, 0x3A3], 1715, 0, 0), ([0x3B1, 0x3C3], 1716, 0, 0)],
            log = [Info_processed [0x391, 0x3A3] 1715 0 0,
                   Info_processed [0x3B1, 0x3C3] 1716 0 0]\<rparr>"
    by (simp add: sc b insert_word_def execute_insert_def insert_or_ignore_def add_log_def)
  then have "process_file unicode_fragment ?fs sorted_list_of_set (\<lambda>x. NoFault) (str ''in.txt'') ?w
      = Returned
           \<lparr>words_table = Some [([0x391, 0x3A3], 1715, 0, 0), ([0x3B1, 0x3C3], 1716, 0, 0)],
            log = [Info_processed [0x391, 0x3A3] 1715 0 0,
                   Info_processed [0x3B1, 0x3C3] 1716 0 0]\<rparr>"
    by (simp add: process_file_def x o)
  with lo sp al sc(1,4) show ?thesis by blast
qed

text \<open>
  Claim C4.  The claim is that no failure leaves the operation that produced it.  A failure
  of \<^verbatim>\<open>execute\<close> or \<^verbatim>\<open>commit\<close> is indeed logged, the word is not recorded and the loop
  goes on (lemmas \<open>insert_word_caught\<close>, \<open>process_words_returns\<close>).  A failure of \<^verbatim>\<open>sqlite3.connect\<close> is
  not: in \<^verbatim>\<open>insert_word\<close> the \<^verbatim>\<open>finally\<close> clause raises \<^verbatim>\<open>UnboundLocalError\<close>, in
  \<^verbatim>\<open>create_database\<close> the call stands before the \<^verbatim>\<open>try\<close>, and either exception ends
  \<^verbatim>\<open>main\<close>; the loop ends with the exception whenever the database cannot be opened
  for some word (lemma \<open>process_words_raises\<close>).  In the run below that word is the first
  one, "Cat": the run ends there and "DOG" and "cat" are never processed.
\<close>

theorem connect_failure_leaves_the_program:
  "insert_word ConnectFails word s h e w = Raised UnboundLocalError (add_log Error_inserting w)
   \<and> create_database ConnectFails w = Raised OperationalError w
   \<and> main U fs iter_order ConnectFails flt file w = Raised OperationalError w
   \<and> main unicode_fragment
        \<lparr>read_csv_text = (\<lambda>p. None), read_txt = (\<lambda>p. Some (str ''Cat cat DOG 123 dog!''))\<rparr>
        sorted_list_of_set NoFault (\<lambda>x. if x = str ''Cat'' then ConnectFails else NoFault)
        (str ''in.txt'') \<lparr>words_table = None, log = []\<rparr>
       = Raised UnboundLocalError \<lparr>words_table = Some [], log = [Error_inserting]\<rparr>"
proof -
  let ?fs = "\<lparr>read_csv_text = (\<lambda>p::pystr. None :: pystr option),
              read_txt = (\<lambda>p::pystr. Some (str ''Cat cat DOG 123 dog!''))\<rparr>"
  let ?w = "\<lparr>words_table = Some [], log = []\<rparr>"
  let ?t = "str ''Cat cat DOG 123 dog!''"
  have c: "create_database NoFault \<lparr>words_table = None, log = []\<rparr> = Returned ?w"
    by (simp add: create_database_def execute_create_def)
  have x: "extract_text unicode_fragment ?fs (str ''in.txt'') ?w = (?t, ?w)"
    by code_simp
  have o: "sorted_list_of_set (words unicode_fragment ?t) = [str ''Cat'', str ''DOG'', str ''cat'']"
    by code_simp
  have "main unicode_fragment ?fs sorted_list_of_set NoFault
          (\<lambda>x. if x = str ''Cat'' then ConnectFails else NoFault)
          (str ''in.txt'') \<lparr>words_table = None, log = []\<rparr>
       = Raised UnboundLocalError \<lparr>words_table = Some [], log = [Error_inserting]\<rparr>"
    by (simp add: main_def c process_file_def x o insert_word_def add_log_def Let_def)
  then show ?thesis
    by (simp add: insert_word_def create_database_def main_def)
qed

end
